theory Spec2Isabelle
  imports Complex_Main "HOL-Library.AList"
begin

section \<open>The RetinaNet object-detection primitive: annotation building and prediction tables\<close>

text \<open>
  This theory embeds the table bookkeeping of \<^verbatim>\<open>object_detection/object_detection.py\<close>:
  \<^verbatim>\<open>set_training_data\<close> (lines 164-200), which turns the bounding-box column of the input
  table into annotation rows, and \<^verbatim>\<open>produce\<close> (lines 483-687), which filters the
  detector's output, renders the boxes as 8-coordinate strings and matches them to the
  \<^verbatim>\<open>d3mIndex\<close> values of the input table.

  The network, the image reading and the rescaling are external: the detector is a
  parameter \<open>predict\<close> giving, for an image path, the boxes and scores that
  \<^verbatim>\<open>predict_on_batch\<close> returns for it (after \<^verbatim>\<open>boxes /= scale\<close>). Floating-point
  scores and coordinates are modelled as real numbers; only their order against the
  constant \<open>0.5\<close> and their truncation to an integer are used.

  Exceptions are values of the type \<open>error\<close>; a function that can raise returns
  \<open>error + 'a\<close>.

  Each method body is embedded statement by statement. The \<^verbatim>\<open>return\<close> of line 481 is
  indented to class level, outside every method body; \<^verbatim>\<open>produce\<close> never reaches the
  helper it was meant to end (the call of line 654 fails first), and the statement has no
  counterpart here.
\<close>

subsection \<open>Strings and paths\<close>

datatype error = IndexError | ValueError | TypeError | NameError

text \<open>Python's \<^verbatim>\<open>s.split(',')\<close>: the empty string gives one empty token.\<close>

fun split_comma :: "string \<Rightarrow> string list" where
  "split_comma [] = [[]]"
| "split_comma (c # cs) =
     (if c = CHR '','' then [] # split_comma cs
      else (case split_comma cs of
              [] \<Rightarrow> [[c]]
            | t # ts \<Rightarrow> (c # t) # ts))"

text \<open>Python's \<^verbatim>\<open>",".join(xs)\<close>.\<close>

fun join_comma :: "string list \<Rightarrow> string" where
  "join_comma [] = []"
| "join_comma [t] = t"
| "join_comma (t # u # ts) = t @ CHR '','' # join_comma (u # ts)"

text \<open>Python's \<^verbatim>\<open>str\<close> on an integer: decimal digits, with a minus sign if negative.\<close>

definition digit_char :: "nat \<Rightarrow> char" where
  "digit_char d = ''0123456789'' ! d"

fun str_nat :: "nat \<Rightarrow> string" where
  "str_nat n = (if n < 10 then [digit_char n] else str_nat (n div 10) @ [digit_char (n mod 10)])"

declare str_nat.simps [simp del]

definition str_int :: "int \<Rightarrow> string" where
  "str_int i = (if i < 0 then CHR ''-'' # str_nat (nat (- i)) else str_nat (nat i))"

text \<open>\<^verbatim>\<open>uri.replace('file:///', '/')\<close>: every occurrence, from the left, without overlap.\<close>

fun replace_file_uri :: "string \<Rightarrow> string" where
  "replace_file_uri [] = []"
| "replace_file_uri (c # cs) =
     (if take 8 (c # cs) = ''file:///'' then CHR ''/'' # replace_file_uri (drop 7 cs)
      else c # replace_file_uri cs)"

text \<open>\<^verbatim>\<open>os.path.join(a, b)\<close> and \<^verbatim>\<open>os.path.basename(p)\<close> of \<^verbatim>\<open>posixpath\<close>.\<close>

definition path_join :: "string \<Rightarrow> string \<Rightarrow> string" where
  "path_join a b =
     (if take 1 b = ''/'' then b
      else if a = [] \<or> take 1 (rev a) = ''/'' then a @ b
      else a @ CHR ''/'' # b)"

definition basename :: "string \<Rightarrow> string" where
  "basename p = rev (takeWhile (\<lambda>c. c \<noteq> CHR ''/'') (rev p))"

subsection \<open>The input table\<close>

text \<open>
  The input DataFrame, by columns: the \<^verbatim>\<open>d3mIndex\<close> column, the columns tagged as file
  names, each with the \<^verbatim>\<open>location_base_uris[0]\<close> of its metadata, and the
  \<^verbatim>\<open>bounding_box\<close> column.
\<close>

record inputs =
  d3mIndex :: "int list"
  file_cols :: "(string \<times> string list) list"
  bounding_box :: "string list"

text \<open>
  Lines 180-183 and 570-573: one list of joined paths per file-name column, flattened.
\<close>

definition image_paths :: "inputs \<Rightarrow> string list" where
  "image_paths t =
     concat (map (\<lambda>(uri, col). map (path_join (replace_file_uri uri)) col) (file_cols t))"

subsection \<open>\<^verbatim>\<open>set_training_data\<close>\<close>

text \<open>
  Lines 186-189. \<^verbatim>\<open>str.split(',', expand = True)\<close> makes a frame with as many columns as
  the longest row has tokens, shorter rows padded with missing values. Dropping
  \<^verbatim>\<open>columns[[2, 5, 6, 7]]\<close> raises IndexError when there are fewer than 8 columns; naming
  the remaining columns with 4 names raises ValueError unless exactly 4 remain. The
  remaining columns 0, 1, 3, 4 are named x1, y1, y2, x2 and reordered to x1, y1, x2, y2.
\<close>

definition expand_width :: "string list list \<Rightarrow> nat" where
  "expand_width toks = fold max (map length toks) 0"

definition nth_opt :: "'a list \<Rightarrow> nat \<Rightarrow> 'a option" where
  "nth_opt xs j = (if j < length xs then Some (xs ! j) else None)"

type_synonym coords = "string option \<times> string option \<times> string option \<times> string option"

definition bounding_coords :: "string list \<Rightarrow> error + coords list" where
  "bounding_coords bbs =
     (let toks = map split_comma bbs;
          width = expand_width toks
      in if width < 8 then Inl IndexError
         else if width - 4 \<noteq> 4 then Inl ValueError
         else Inr (map (\<lambda>ts. (nth_opt ts 0, nth_opt ts 1, nth_opt ts 4, nth_opt ts 3)) toks))"

record annotation =
  img_file :: "string option"
  ann_x1 :: "string option"
  ann_y1 :: "string option"
  ann_x2 :: "string option"
  ann_y2 :: "string option"
  class_name :: "string option"

text \<open>
  Lines 192-196: \<^verbatim>\<open>pd.concat(..., axis = 1)\<close> joins the paths, the coordinates and the
  constant class name by row position; a position one part lacks is a missing value.
\<close>

definition set_training_data :: "inputs \<Rightarrow> error + annotation list" where
  "set_training_data t =
     (let paths = image_paths t in
      case bounding_coords (bounding_box t) of
        Inl e \<Rightarrow> Inl e
      | Inr cs \<Rightarrow>
          let cls = replicate (length (d3mIndex t)) ''class''
          in Inr (map (\<lambda>j.
                \<lparr> img_file = nth_opt paths j,
                  ann_x1 = Option.bind (nth_opt cs j) (\<lambda>(a, b, c, d). a),
                  ann_y1 = Option.bind (nth_opt cs j) (\<lambda>(a, b, c, d). b),
                  ann_x2 = Option.bind (nth_opt cs j) (\<lambda>(a, b, c, d). c),
                  ann_y2 = Option.bind (nth_opt cs j) (\<lambda>(a, b, c, d). d),
                  class_name = nth_opt cls j \<rparr>)
              [0 ..< max (length paths) (max (length cs) (length cls))]))"

subsection \<open>\<^verbatim>\<open>produce\<close>\<close>

text \<open>
  A row of the detector's \<open>N \<times> 4\<close> box array is \<open>(x1, y1, x2, y2)\<close>.
  \<^verbatim>\<open>box.astype(int)\<close> casts each coordinate to numpy's default integer, the signed
  64-bit integer: a coordinate is truncated towards zero, and when the truncated value
  does not fit in 64 bits the cast gives \<open>- 2 ^ 63\<close>, the result of the x86-64
  conversion for every operand out of range.
\<close>

type_synonym box = "real \<times> real \<times> real \<times> real"
type_synonym int_box = "int \<times> int \<times> int \<times> int"

definition trunc_zero :: "real \<Rightarrow> int" where
  "trunc_zero x = (if 0 \<le> x then \<lfloor>x\<rfloor> else \<lceil>x\<rceil>)"

definition astype_int :: "real \<Rightarrow> int" where
  "astype_int x =
     (let z = trunc_zero x
      in if - (2 ^ 63) \<le> z \<and> z < 2 ^ 63 then z else - (2 ^ 63))"

fun astype_int_box :: "box \<Rightarrow> int_box" where
  "astype_int_box (a, b, c, d) = (astype_int a, astype_int b, astype_int c, astype_int d)"

text \<open>
  Line 580: the paths without repetitions, each at its first position.
\<close>

fun index_of :: "'a list \<Rightarrow> 'a \<Rightarrow> nat" where
  "index_of [] x = 0"
| "index_of (y # ys) x = (if y = x then 0 else Suc (index_of ys x))"

definition image_list :: "string list \<Rightarrow> string list" where
  "image_list paths = map snd (filter (\<lambda>(i, x). index_of paths x = i) (enumerate 0 paths))"

text \<open>
  Lines 576-578 and 599-606: the three lists the loops append to, and the loop over one
  image's boxes and scores, which stops at the first score below \<open>0.5\<close>. The name
  appended is the path repeated \<^verbatim>\<open>len(b)\<close> times, and \<^verbatim>\<open>b\<close> has the 4 entries of a box.
\<close>

record detections =
  box_list :: "int_box list"
  score_list :: "real list"
  image_name_list :: "string list"

fun score_loop :: "string \<Rightarrow> (box \<times> real) list \<Rightarrow> detections \<Rightarrow> detections" where
  "score_loop i [] acc = acc"
| "score_loop i ((box, score) # rest) acc =
     (if score < 0.5 then acc
      else score_loop i rest
             (acc\<lparr> box_list := box_list acc @ [astype_int_box box],
                   score_list := score_list acc @ [score],
                   image_name_list := image_name_list acc @ [concat (replicate 4 i)] \<rparr>))"

type_synonym detector = "string \<Rightarrow> box list \<times> real list"

definition detect_all :: "detector \<Rightarrow> string list \<Rightarrow> detections" where
  "detect_all predict images =
     fold (\<lambda>i acc. case predict i of (boxes, scores) \<Rightarrow> score_loop i (zip boxes scores) acc)
       images \<lparr> box_list = [], score_list = [], image_name_list = [] \<rparr>"

text \<open>Lines 612-613: the 8-coordinate form of a box and its string.\<close>

fun corners8 :: "'a \<times> 'a \<times> 'a \<times> 'a \<Rightarrow> 'a list" where
  "corners8 (x0, x1, x2, x3) = [x0, x1, x0, x3, x2, x3, x2, x1]"

definition box_string :: "int_box \<Rightarrow> string" where
  "box_string b = join_comma (map str_int (corners8 b))"

text \<open>
  Lines 618-625: \<^verbatim>\<open>set_index('image').T.to_dict('list')\<close> makes a dictionary from the
  base name of each row's image to the one-element list of that row's \<^verbatim>\<open>d3mIndex\<close>; a
  base name that occurs again replaces the entry in place.
\<close>

definition to_dict_list :: "(string \<times> int) list \<Rightarrow> (string \<times> int list) list" where
  "to_dict_list rows = fold (\<lambda>(k, v) m. AList.update k [v] m) rows []"

record prediction =
  row_d3mIndex :: int
  row_bounding_box :: string
  row_confidence :: real

text \<open>
  Lines 569-658. The frame of line 618 needs as many image names as there are
  \<^verbatim>\<open>d3mIndex\<close> values (ValueError otherwise). Flattening the looked-up lists fails with
  TypeError when a name is not a key of the dictionary. When some key's value is not among
  the looked-up values, line 654 calls \<^verbatim>\<open>_fill_empty_predictions\<close> as a bare name; the
  function is a method of the class, the module binds no such name, and the call raises
  NameError. Otherwise line 658 returns \<^verbatim>\<open>results\<close>.
\<close>

definition produce :: "detector \<Rightarrow> inputs \<Rightarrow> error + prediction list" where
  "produce predict t =
     (let paths = image_paths t;
          dets = detect_all predict (image_list paths);
          boxes = map box_string (box_list dets);
          names = map basename (image_name_list dets)
      in if length (d3mIndex t) \<noteq> length paths then Inl ValueError
         else
           let d3mIdx_image_mapping = to_dict_list (zip (map basename paths) (d3mIndex t));
               d3mIdx = map (map_of d3mIdx_image_mapping) names;
               empty_predictions_image_names =
                 map fst (filter (\<lambda>(k, v). Some v \<notin> set d3mIdx) d3mIdx_image_mapping)
           in if None \<in> set d3mIdx then Inl TypeError
              else
                let flat = concat (map the d3mIdx)
                in if length flat = length boxes \<and> length boxes = length (score_list dets)
                   then
                     if length empty_predictions_image_names \<noteq> 0 then Inl NameError
                     else Inr (map (\<lambda>(i, b, s).
                            \<lparr> row_d3mIndex = i, row_bounding_box = b, row_confidence = s \<rparr>)
                          (zip flat (zip boxes (score_list dets))))
                   else Inl ValueError)"

text \<open>
  The detections of image \<open>i\<close> that the loop of lines 599-606 appends: those before the
  first score below \<open>0.5\<close> (lemmas \<open>score_loop_boxes\<close>, \<open>score_loop_scores\<close> and
  \<open>score_loop_names\<close> below).
\<close>

definition accepted :: "detector \<Rightarrow> string \<Rightarrow> (box \<times> real) list" where
  "accepted predict i =
     (case predict i of (boxes, scores) \<Rightarrow> takeWhile (\<lambda>(b, s). \<not> s < 0.5) (zip boxes scores))"

subsection \<open>Example tables and detectors\<close>

definition one_row_table :: inputs where
  "one_row_table =
     \<lparr> d3mIndex = [1], file_cols = [(''file:///d'', [''a.jpg''])],
       bounding_box = [''10,20,30,40,50,60,70,80''] \<rparr>"

definition scenario_table :: inputs where
  "scenario_table =
     \<lparr> d3mIndex = [1, 2], file_cols = [(''file:///d'', [''a.jpg'', ''b.jpg''])],
       bounding_box = [''1,2,1,4,5,4,5,2'', ''3,4,3,8,9,8,9,4''] \<rparr>"

definition same_name_table :: inputs where
  "same_name_table =
     \<lparr> d3mIndex = [1, 2], file_cols = [(''file:///d'', [''x/a.jpg'', ''y/a.jpg''])],
       bounding_box = [''1,2,1,4,5,4,5,2'', ''3,4,3,8,9,8,9,4''] \<rparr>"

definition short_row_table :: inputs where
  "short_row_table =
     \<lparr> d3mIndex = [1, 2], file_cols = [(''file:///d'', [''a.jpg'', ''b.jpg''])],
       bounding_box = [''1,2,1,4,5,4,5,2'', ''x,y,3''] \<rparr>"

definition all_short_table :: inputs where
  "all_short_table =
     \<lparr> d3mIndex = [1], file_cols = [(''file:///d'', [''a.jpg''])], bounding_box = [''1,2,3''] \<rparr>"

definition long_row_table :: inputs where
  "long_row_table =
     \<lparr> d3mIndex = [1], file_cols = [(''file:///d'', [''a.jpg''])],
       bounding_box = [''1,2,1,4,5,4,5,2,7''] \<rparr>"

definition repeated_row_table :: inputs where
  "repeated_row_table =
     \<lparr> d3mIndex = [1, 1, 2], file_cols = [(''file:///d'', [''a.jpg'', ''a.jpg'', ''b.jpg''])],
       bounding_box = [''1,2,1,4,5,4,5,2'', ''3,4,3,8,9,8,9,4'', ''3,4,3,8,9,8,9,4''] \<rparr>"

definition one_hit :: detector where
  "one_hit p = ([(- 1.5, 20.2, 30.9, 40.5)], [0.9])"

definition two_hits :: detector where
  "two_hits p = ([(10.7, 20.2, 30.9, 40.5), (1, 2, 3, 4)], [0.9, 0.8])"

definition low_score :: detector where
  "low_score p = ([(10, 20, 30, 40)], [0.3])"


definition scenario_detector :: detector where
  "scenario_detector p =
     (if p = ''/d/a.jpg'' then ([(10.7, 20.2, 30.9, 40.5)], [0.9]) else ([], []))"

subsection \<open>Facts about the string and list functions\<close>

lemma split_comma_plain: "CHR '','' \<notin> set t \<Longrightarrow> split_comma t = [t]"
  by (induction t) auto

lemma split_comma_append:
  "CHR '','' \<notin> set t \<Longrightarrow> split_comma (t @ CHR '','' # s) = t # split_comma s"
  by (induction t) auto

lemma split_join_comma:
  "ts \<noteq> [] \<Longrightarrow> \<forall>t\<in>set ts. CHR '','' \<notin> set t \<Longrightarrow> split_comma (join_comma ts) = ts"
proof (induction ts rule: join_comma.induct)
  case 1
  then show ?case by simp
next
  case (2 t)
  then show ?case by (simp add: split_comma_plain)
next
  case (3 t u ts)
  then show ?case by (simp add: split_comma_append)
qed

lemma digit_char_no_comma: "d < 10 \<Longrightarrow> digit_char d \<noteq> CHR '',''"
proof -
  assume "d < 10"
  then have "d \<in> {0,1,2,3,4,5,6,7,8,9}" by auto
  then show ?thesis by (auto simp: digit_char_def)
qed

lemma str_nat_no_comma: "CHR '','' \<notin> set (str_nat n)"
proof (induction n rule: str_nat.induct)
  case (1 n)
  show ?case
  proof (cases "n < 10")
    case True
    then show ?thesis using digit_char_no_comma [of n] by (simp add: str_nat.simps [of n])
  next
    case False
    then show ?thesis using 1 digit_char_no_comma [of "n mod 10"]
      by (simp add: str_nat.simps [of n])
  qed
qed

lemma str_int_no_comma: "CHR '','' \<notin> set (str_int i)"
  by (simp add: str_int_def str_nat_no_comma)

lemma score_loop_boxes:
  "box_list (score_loop i dets acc) =
     box_list acc @ map (\<lambda>(b, s). astype_int_box b) (takeWhile (\<lambda>(b, s). \<not> s < 0.5) dets)"
  by (induction dets arbitrary: acc) auto

lemma score_loop_scores:
  "score_list (score_loop i dets acc) =
     score_list acc @ map snd (takeWhile (\<lambda>(b, s). \<not> s < 0.5) dets)"
  by (induction dets arbitrary: acc) auto

lemma score_loop_names:
  "image_name_list (score_loop i dets acc) =
     image_name_list acc @
       replicate (length (takeWhile (\<lambda>(b, s). \<not> s < 0.5) dets)) (concat (replicate 4 i))"
  by (induction dets arbitrary: acc) (auto simp: replicate_append_same)

lemma to_dict_list_fold:
  "map_of (fold (\<lambda>(k, v) m. AList.update k [v] m) rows m0) k =
     (case map_of (rev rows) k of None \<Rightarrow> map_of m0 k | Some v \<Rightarrow> Some [v])"
  by (induction rows arbitrary: m0) (auto simp: update_conv' split: option.splits)

lemma map_of_to_dict_list:
  "map_of (to_dict_list rows) k = map_option (\<lambda>v. [v]) (map_of (rev rows) k)"
  by (simp add: to_dict_list_def to_dict_list_fold split: option.splits)

lemma basename_repeat:
  assumes "CHR ''/'' \<in> set p"
  shows "basename (concat (replicate 4 p)) = basename p"
proof -
  have "concat (replicate 4 p) = (p @ p @ p) @ p"
    by (simp add: numeral_eq_Suc)
  moreover have "CHR ''/'' \<in> set (rev p)"
    using assms by simp
  ultimately show ?thesis
    by (simp add: basename_def takeWhile_append1 del: append_assoc)
qed


lemma bounding_coords_corners8:
  assumes "CHR '','' \<notin> set a" "CHR '','' \<notin> set b" "CHR '','' \<notin> set c" "CHR '','' \<notin> set d"
  shows "bounding_coords [join_comma (corners8 (a, b, c, d))] = Inr [(Some a, Some b, Some c, Some d)]"
proof -
  have "split_comma (join_comma (corners8 (a, b, c, d))) = corners8 (a, b, c, d)"
    using assms by (intro split_join_comma) auto
  then show ?thesis
    by (simp add: bounding_coords_def expand_width_def nth_opt_def)
qed

lemma expand_width_Max: "expand_width toks = Max (set (0 # map length toks))"
  by (simp only: expand_width_def Max.set_eq_fold)

lemma expand_width_le: "(\<And>ts. ts \<in> set toks \<Longrightarrow> length ts \<le> n) \<Longrightarrow> expand_width toks \<le> n"
  unfolding expand_width_Max by (subst Max_le_iff) auto

lemma expand_width_ge: "ts \<in> set toks \<Longrightarrow> length ts \<le> expand_width toks"
  unfolding expand_width_Max by (intro Max_ge) auto

lemma set_training_data_width8:
  assumes "expand_width (map split_comma (bounding_box t)) = 8"
    and "j < length (bounding_box t)"
  shows "\<exists>anns. set_training_data t = Inr anns \<and> j < length anns \<and>
           ann_x1 (anns ! j) = nth_opt (split_comma (bounding_box t ! j)) 0 \<and>
           ann_y1 (anns ! j) = nth_opt (split_comma (bounding_box t ! j)) 1 \<and>
           ann_x2 (anns ! j) = nth_opt (split_comma (bounding_box t ! j)) 4 \<and>
           ann_y2 (anns ! j) = nth_opt (split_comma (bounding_box t ! j)) 3"
  using assms
  by (simp add: set_training_data_def bounding_coords_def Let_def nth_opt_def less_max_iff_disj)

subsection \<open>Facts about the detection loop and the dictionary\<close>

lemma set_image_list: "set (image_list paths) \<subseteq> set paths"
  by (auto simp: image_list_def in_set_enumerate_eq) (metis nth_mem)

lemma index_of_less: "x \<in> set xs \<Longrightarrow> index_of xs x < length xs \<and> xs ! index_of xs x = x"
  by (induction xs) auto

lemma set_image_list_eq: "set (image_list paths) = set paths"
proof
  show "set (image_list paths) \<subseteq> set paths" by (rule set_image_list)
  show "set paths \<subseteq> set (image_list paths)"
  proof
    fix x assume "x \<in> set paths"
    then have "(index_of paths x, x) \<in> set (enumerate 0 paths)"
      using index_of_less [of x paths] by (simp add: in_set_enumerate_eq)
    then have "(index_of paths x, x) \<in> set (filter (\<lambda>(i, x). index_of paths x = i) (enumerate 0 paths))"
      by simp
    then show "x \<in> set (image_list paths)"
      unfolding image_list_def by (metis image_eqI set_map snd_conv)
  qed
qed

lemma distinct_image_list: "distinct (image_list paths)"
proof -
  let ?f = "filter (\<lambda>(i, x). index_of paths x = i) (enumerate 0 paths)"
  have "distinct ?f" by (simp add: distinct_enumerate)
  moreover have "inj_on snd (set ?f)"
    by (auto simp: inj_on_def)
  ultimately show ?thesis
    unfolding image_list_def by (simp add: distinct_map)
qed

lemma fold_detect_boxes:
  "box_list (fold (\<lambda>i acc. case predict i of (boxes, scores) \<Rightarrow> score_loop i (zip boxes scores) acc) images acc0) =
     box_list acc0 @ concat (map (\<lambda>i. map (\<lambda>(b, s). astype_int_box b) (accepted predict i)) images)"
  by (induction images arbitrary: acc0) (auto simp: score_loop_boxes accepted_def split: prod.splits)

lemma fold_detect_scores:
  "score_list (fold (\<lambda>i acc. case predict i of (boxes, scores) \<Rightarrow> score_loop i (zip boxes scores) acc) images acc0) =
     score_list acc0 @ concat (map (\<lambda>i. map snd (accepted predict i)) images)"
  by (induction images arbitrary: acc0) (auto simp: score_loop_scores accepted_def split: prod.splits)

lemma fold_detect_names:
  "image_name_list (fold (\<lambda>i acc. case predict i of (boxes, scores) \<Rightarrow> score_loop i (zip boxes scores) acc) images acc0) =
     image_name_list acc0 @
       concat (map (\<lambda>i. replicate (length (accepted predict i)) (concat (replicate 4 i))) images)"
  by (induction images arbitrary: acc0) (auto simp: score_loop_names accepted_def split: prod.splits)

lemma detect_all_boxes:
  "box_list (detect_all predict images) =
     concat (map (\<lambda>i. map (\<lambda>(b, s). astype_int_box b) (accepted predict i)) images)"
  by (simp add: detect_all_def fold_detect_boxes)

lemma detect_all_scores:
  "score_list (detect_all predict images) = concat (map (\<lambda>i. map snd (accepted predict i)) images)"
  by (simp add: detect_all_def fold_detect_scores)

lemma detect_all_names:
  "image_name_list (detect_all predict images) =
     concat (map (\<lambda>i. replicate (length (accepted predict i)) (concat (replicate 4 i))) images)"
  by (simp add: detect_all_def fold_detect_names)

lemma rows_proj:
  assumes "length a = length b" "length b = length c"
  shows "map row_d3mIndex (map (\<lambda>(i, b, s).
            \<lparr> row_d3mIndex = i, row_bounding_box = b, row_confidence = s \<rparr>) (zip a (zip b c))) = a"
    and "map row_bounding_box (map (\<lambda>(i, b, s).
            \<lparr> row_d3mIndex = i, row_bounding_box = b, row_confidence = s \<rparr>) (zip a (zip b c))) = b"
    and "map row_confidence (map (\<lambda>(i, b, s).
            \<lparr> row_d3mIndex = i, row_bounding_box = b, row_confidence = s \<rparr>) (zip a (zip b c))) = c"
  using assms by (induction a b c rule: list_induct3) auto

lemma produce_Inr:
  assumes "produce predict t = Inr out"
  shows "length (d3mIndex t) = length (image_paths t)"
    and "None \<notin> set (map (map_of (to_dict_list (zip (map basename (image_paths t)) (d3mIndex t))))
            (map basename (image_name_list (detect_all predict (image_list (image_paths t))))))"
    and "map row_d3mIndex out =
           concat (map the (map (map_of (to_dict_list (zip (map basename (image_paths t)) (d3mIndex t))))
            (map basename (image_name_list (detect_all predict (image_list (image_paths t)))))))"
    and "map row_bounding_box out =
           map box_string (box_list (detect_all predict (image_list (image_paths t))))"
    and "map row_confidence out = score_list (detect_all predict (image_list (image_paths t)))"
proof -
  let ?dets = "detect_all predict (image_list (image_paths t))"
  let ?d3mIdx = "map (map_of (to_dict_list (zip (map basename (image_paths t)) (d3mIndex t))))
            (map basename (image_name_list ?dets))"
  let ?flat = "concat (map the ?d3mIdx)"
  let ?boxes = "map box_string (box_list ?dets)"
  have a: "length (d3mIndex t) = length (image_paths t)"
    using assms unfolding produce_def Let_def by (simp split: if_splits)
  have b: "None \<notin> set ?d3mIdx"
    using assms a unfolding produce_def Let_def by (simp split: if_splits)
  have c: "length ?flat = length ?boxes" "length ?boxes = length (score_list ?dets)"
    using assms a b unfolding produce_def Let_def by (simp_all split: if_splits)
  have d: "out = map (\<lambda>(i, b, s).
            \<lparr> row_d3mIndex = i, row_bounding_box = b, row_confidence = s \<rparr>)
            (zip ?flat (zip ?boxes (score_list ?dets)))"
    using assms a b c unfolding produce_def Let_def by (simp split: if_splits)
  show "length (d3mIndex t) = length (image_paths t)" by (rule a)
  show "None \<notin> set ?d3mIdx" by (rule b)
  show "map row_d3mIndex out = ?flat" unfolding d by (rule rows_proj(1) [OF c])
  show "map row_bounding_box out = ?boxes" unfolding d by (rule rows_proj(2) [OF c])
  show "map row_confidence out = score_list ?dets" unfolding d by (rule rows_proj(3) [OF c])
qed

lemma split_box_string: "split_comma (box_string b) = map str_int (corners8 b)"
proof -
  obtain x0 x1 x2 x3 where b: "b = (x0, x1, x2, x3)" by (cases b)
  show ?thesis unfolding box_string_def b
    by (intro split_join_comma) (auto simp: str_int_no_comma)
qed

lemma accepted_boxes: "(b, s) \<in> set (accepted predict p) \<Longrightarrow> b \<in> set (fst (predict p)) \<and> \<not> s < 0.5"
proof -
  assume a: "(b, s) \<in> set (accepted predict p)"
  obtain boxes scores where p: "predict p = (boxes, scores)" by (cases "predict p")
  from a have "(b, s) \<in> set (takeWhile (\<lambda>(b, s). \<not> s < 0.5) (zip boxes scores))"
    by (simp add: accepted_def p)
  then have "(b, s) \<in> set (zip boxes scores)" "\<not> s < 0.5"
    by (auto dest: set_takeWhileD)
  then show ?thesis by (auto simp: p dest: set_zip_leftD)
qed

lemma map_of_rev_last:
  "map_of (rev rows) k = Some i \<Longrightarrow> \<exists>pre post. rows = pre @ (k, i) # post \<and> k \<notin> fst ` set post"
proof (induction rows rule: rev_induct)
  case Nil
  then show ?case by simp
next
  case (snoc x rows)
  show ?case
  proof (cases "fst x = k")
    case True
    with snoc.prems have "x = (k, i)" by (cases x) auto
    then have "rows @ [x] = rows @ (k, i) # [] \<and> k \<notin> fst ` set []" by simp
    then show ?thesis by blast
  next
    case False
    with snoc.prems have "map_of (rev rows) k = Some i" by (cases x) auto
    then obtain pre post where "rows = pre @ (k, i) # post" "k \<notin> fst ` set post"
      using snoc.IH by blast
    then have "rows @ [x] = pre @ (k, i) # (post @ [x]) \<and> k \<notin> fst ` set (post @ [x])"
      using False by auto
    then show ?thesis by blast
  qed
qed

lemma map_of_rev_lastI:
  assumes "k \<notin> fst ` set post"
  shows "map_of (rev (pre @ (k, i) # post)) k = Some i"
proof -
  have "map_of (rev post) k = None"
    using assms by (simp add: map_of_eq_None_iff)
  then show ?thesis by (simp add: map_add_def)
qed

lemma to_dict_list_distinct: "distinct (map fst (to_dict_list rows))"
proof -
  have "distinct (map fst m0) \<Longrightarrow>
      distinct (map fst (fold (\<lambda>(k, v) m. AList.update k [v] m) rows m0))" for m0
    by (induction rows arbitrary: m0) (auto simp: distinct_update)
  then show ?thesis by (simp add: to_dict_list_def)
qed

lemma to_dict_list_entries:
  assumes "(k, v) \<in> set (to_dict_list rows)"
  shows "\<exists>i. v = [i] \<and> (k, i) \<in> set rows"
proof -
  have "map_of (to_dict_list rows) k = Some v"
    using assms to_dict_list_distinct by simp
  then obtain i where "v = [i]" "map_of (rev rows) k = Some i"
    by (auto simp: map_of_to_dict_list)
  then show ?thesis by (auto dest: map_of_SomeD)
qed

subsection \<open>Facts about the integer cast and the accepted detections\<close>

lemma astype_int_int64: "- (2 ^ 63) \<le> astype_int x \<and> astype_int x < 2 ^ 63"
proof -
  define M :: int where "M = 2 ^ 63"
  have M: "0 < M" by (simp add: M_def)
  have "astype_int x = (if - M \<le> trunc_zero x \<and> trunc_zero x < M then trunc_zero x else - M)"
    unfolding M_def astype_int_def Let_def by (rule refl)
  then have "- M \<le> astype_int x \<and> astype_int x < M"
    using M by (simp split: if_splits)
  then show ?thesis unfolding M_def .
qed

lemma astype_int_in_range:
  assumes "- (2 ^ 63) \<le> x" and "x < 2 ^ 63"
  shows "astype_int x = trunc_zero x"
proof -
  define M :: int where "M = 2 ^ 63"
  have M: "0 < M" by (simp add: M_def)
  have R: "real_of_int M = 2 ^ 63" by (simp add: M_def)
  have lo: "- real_of_int M \<le> x" and hi: "x < real_of_int M"
    using assms unfolding R by simp_all
  have "- M \<le> trunc_zero x \<and> trunc_zero x < M"
  proof (cases "0 \<le> x")
    case True
    have a: "0 \<le> \<lfloor>x\<rfloor>" using True by simp
    have b: "\<lfloor>x\<rfloor> < M" using hi by (simp only: floor_less_iff)
    have c: "- M \<le> \<lfloor>x\<rfloor>" using a M by linarith
    have "trunc_zero x = \<lfloor>x\<rfloor>" using True by (simp add: trunc_zero_def)
    with b c show ?thesis by (simp only: simp_thms)
  next
    case False
    have a: "\<lceil>x\<rceil> \<le> 0" using False by (simp add: ceiling_le_iff)
    have b: "- M \<le> \<lceil>x\<rceil>" using lo by (simp only: le_ceiling_iff of_int_minus)
    have c: "\<lceil>x\<rceil> < M" using a M by linarith
    have "trunc_zero x = \<lceil>x\<rceil>" using False by (simp add: trunc_zero_def)
    with b c show ?thesis by (simp only: simp_thms)
  qed
  moreover have "astype_int x = (if - M \<le> trunc_zero x \<and> trunc_zero x < M then trunc_zero x else - M)"
    unfolding M_def astype_int_def Let_def by (rule refl)
  ultimately show ?thesis by simp
qed



lemma astype_int_out_of_range: "astype_int (2 ^ 63) = - (2 ^ 63)"
proof -
  define M :: int where "M = 2 ^ 63"
  have M: "0 < M" by (simp add: M_def)
  have R: "(2 :: real) ^ 63 = real_of_int M" by (simp add: M_def)
  have t: "trunc_zero (real_of_int M) = M"
    using M by (simp add: trunc_zero_def)
  have "astype_int (real_of_int M) =
      (if - M \<le> trunc_zero (real_of_int M) \<and> trunc_zero (real_of_int M) < M
       then trunc_zero (real_of_int M) else - M)"
    unfolding M_def astype_int_def Let_def by (rule refl)
  then have "astype_int (real_of_int M) = - M"
    unfolding t by simp
  then show ?thesis unfolding R unfolding M_def .
qed

subsection \<open>The output formatter\<close>

text \<open>
  C8. The formatter writes a box \<open>(x1, y1, x2, y2)\<close> as the string
  \<^verbatim>\<open>x1,y1,x1,y2,x2,y2,x2,y1\<close>: the corners \<open>(x1, y1)\<close>, \<open>(x1, y2)\<close>, \<open>(x2, y2)\<close>,
  \<open>(x2, y1)\<close> in this order.
\<close>

theorem box_string_corner_order:
  "box_string (x1, y1, x2, y2) =
     str_int x1 @ '','' @ str_int y1 @ '','' @ str_int x1 @ '','' @ str_int y2 @ '','' @
     str_int x2 @ '','' @ str_int y2 @ '','' @ str_int x2 @ '','' @ str_int y1"
  by (simp add: box_string_def)

text \<open>
  C6. For every box \<open>(x1, y1, x2, y2)\<close>, the annotation builder's extraction applied to
  the formatter's 8-coordinate string gives back the renderings of \<open>x1\<close>, \<open>y1\<close>,
  \<open>x2\<close>, \<open>y2\<close>, and writing these four values in the formatter's 8-coordinate form
  reproduces the string.
\<close>

theorem bounding_box_roundtrip:
  "bounding_coords [box_string (x1, y1, x2, y2)] =
     Inr [(Some (str_int x1), Some (str_int y1), Some (str_int x2), Some (str_int y2))] \<and>
   join_comma (corners8 (str_int x1, str_int y1, str_int x2, str_int y2)) =
     box_string (x1, y1, x2, y2)"
  using bounding_coords_corners8 [of "str_int x1" "str_int y1" "str_int x2" "str_int y2"]
  by (simp add: box_string_def str_int_no_comma)

subsection \<open>The score threshold\<close>



subsection \<open>Truncated coordinates\<close>

text \<open>
  C10. Whenever \<^verbatim>\<open>produce\<close> returns a table, the bounding box of every row is the
  formatter's string of some detector box of some input image after the cast of its four
  coordinates to 64-bit integers, so each of its 8 comma-separated tokens is the decimal
  rendering of an integer in the 64-bit range; for a coordinate within that range the
  integer is the coordinate truncated towards zero.
\<close>

theorem produce_boxes_truncated:
  assumes "produce predict t = Inr out" and "r \<in> set out"
  shows "\<exists>p \<in> set (image_paths t). \<exists>b \<in> set (fst (predict p)).
           row_bounding_box r = box_string (astype_int_box b) \<and>
           split_comma (row_bounding_box r) = map str_int (corners8 (astype_int_box b)) \<and>
           corners8 (astype_int_box b) = map astype_int (corners8 b) \<and>
           (\<forall>c \<in> set (corners8 b).
              - (2 ^ 63) \<le> astype_int c \<and> astype_int c < 2 ^ 63 \<and>
              (- (2 ^ 63) \<le> c \<and> c < 2 ^ 63 \<longrightarrow> astype_int c = trunc_zero c))"
proof -
  have "row_bounding_box r \<in> set (map row_bounding_box out)"
    using assms(2) by simp
  then have "row_bounding_box r \<in>
      set (map box_string (box_list (detect_all predict (image_list (image_paths t)))))"
    by (simp only: produce_Inr(4) [OF assms(1)])
  then obtain p b s where p: "p \<in> set (image_list (image_paths t))"
      and b: "(b, s) \<in> set (accepted predict p)"
      and r: "row_bounding_box r = box_string (astype_int_box b)"
    by (auto simp: detect_all_boxes)
  from p have p': "p \<in> set (image_paths t)" using set_image_list by blast
  from b have b': "b \<in> set (fst (predict p))" by (simp add: accepted_boxes)
  have s: "split_comma (row_bounding_box r) = map str_int (corners8 (astype_int_box b))"
    unfolding r by (rule split_box_string)
  have c: "corners8 (astype_int_box b) = map astype_int (corners8 b)"
    by (cases b) simp
  have d: "\<forall>c \<in> set (corners8 b).
              - (2 ^ 63) \<le> astype_int c \<and> astype_int c < 2 ^ 63 \<and>
              (- (2 ^ 63) \<le> c \<and> c < 2 ^ 63 \<longrightarrow> astype_int c = trunc_zero c)"
    using astype_int_int64 astype_int_in_range by blast
  from p' b' r s c d show ?thesis by blast
qed

theorem produce_boxes_truncated_witness:
  "\<exists>p \<in> set (image_paths one_row_table). \<exists>b \<in> set (fst (one_hit p)).
      ''-1,20,-1,40,30,40,30,20'' = box_string (astype_int_box b) \<and>
      split_comma ''-1,20,-1,40,30,40,30,20'' = map str_int (corners8 (astype_int_box b))"
proof -
  let ?r = "\<lparr> row_d3mIndex = 1, row_bounding_box = ''-1,20,-1,40,30,40,30,20'',
      row_confidence = 0.9 \<rparr>"
  have ev: "produce one_hit one_row_table = Inr [?r]"
    by code_simp
  have "?r \<in> set [?r]" by simp
  from produce_boxes_truncated [OF ev this] show ?thesis
    by (simp only: prediction.simps) blast
qed

subsection \<open>The dictionary from image names to row identifiers\<close>

text \<open>
  C4, as amended. The dictionary keeps, for each base name, only the one-element list of
  the \<^verbatim>\<open>d3mIndex\<close> of the last row with that base name: the identifier of an earlier
  row with the same base name is replaced. Hence, whenever \<^verbatim>\<open>produce\<close> returns a
  table, the identifier of every output row is that of a row which is the last one with
  its base name.
\<close>

theorem mapping_keeps_last_row:
  "(k \<notin> fst ` set post \<longrightarrow> map_of (to_dict_list (pre @ (k, i) # post)) k = Some [i]) \<and>
   (produce predict t = Inr out \<longrightarrow>
      (\<forall>r \<in> set out. \<exists>pre' k' post'.
          zip (map basename (image_paths t)) (d3mIndex t) = pre' @ (k', row_d3mIndex r) # post' \<and>
          k' \<notin> fst ` set post'))"
proof (intro conjI impI ballI)
  assume "k \<notin> fst ` set post"
  then show "map_of (to_dict_list (pre @ (k, i) # post)) k = Some [i]"
    using map_of_rev_lastI [of k post pre i] by (simp add: map_of_to_dict_list)
next
  fix r
  assume ok: "produce predict t = Inr out" and r: "r \<in> set out"
  let ?rows = "zip (map basename (image_paths t)) (d3mIndex t)"
  let ?d3mIdx = "map (map_of (to_dict_list ?rows))
      (map basename (image_name_list (detect_all predict (image_list (image_paths t)))))"
  have "row_d3mIndex r \<in> set (map row_d3mIndex out)" using r by simp
  then have "row_d3mIndex r \<in> set (concat (map the ?d3mIdx))"
    by (simp only: produce_Inr(3) [OF ok])
  then obtain v where v: "v \<in> set ?d3mIdx" and "row_d3mIndex r \<in> set (the v)"
    by auto
  moreover have "v \<noteq> None" using v produce_Inr(2) [OF ok] by metis
  ultimately obtain k' where "map_of (to_dict_list ?rows) k' = Some (the v)"
    by auto
  then have "map_of (rev ?rows) k' = Some (row_d3mIndex r)"
    using \<open>row_d3mIndex r \<in> set (the v)\<close>
    by (auto simp: map_of_to_dict_list) (metis empty_iff empty_set set_ConsD)
  then show "\<exists>pre' k' post'. ?rows = pre' @ (k', row_d3mIndex r) # post' \<and> k' \<notin> fst ` set post'"
    by (rule map_of_rev_last [THEN exE]) blast
qed

text \<open>
  Two rows with identifiers 1 and 2 whose images \<^verbatim>\<open>/d/x/a.jpg\<close> and \<^verbatim>\<open>/d/y/a.jpg\<close>
  share the base name: the dictionary holds only identifier 2, both output rows carry it,
  and identifier 1 is absent from the output.
\<close>

theorem same_name_counterexample:
  "map_of (to_dict_list (zip (map basename (image_paths same_name_table)) (d3mIndex same_name_table)))
     ''a.jpg'' = Some [2] \<and>
   produce one_hit same_name_table =
     Inr [\<lparr> row_d3mIndex = 2, row_bounding_box = ''-1,20,-1,40,30,40,30,20'', row_confidence = 0.9 \<rparr>,
          \<lparr> row_d3mIndex = 2, row_bounding_box = ''-1,20,-1,40,30,40,30,20'', row_confidence = 0.9 \<rparr>]"
  by code_simp

theorem mapping_keeps_last_row_witness:
  "map_of (to_dict_list ([(''a.jpg'', 1)] @ (''a.jpg'', 2) # [])) ''a.jpg'' = Some [2] \<and>
   (\<exists>pre' k' post'.
      zip (map basename (image_paths same_name_table)) (d3mIndex same_name_table) =
        pre' @ (k', 2) # post' \<and> k' \<notin> fst ` set post')"
proof -
  let ?r = "\<lparr> row_d3mIndex = 2, row_bounding_box = ''-1,20,-1,40,30,40,30,20'', row_confidence = 0.9 \<rparr>"
  have ev: "produce one_hit same_name_table = Inr [?r, ?r]"
    by code_simp
  show ?thesis
    using mapping_keeps_last_row [where k = "''a.jpg''" and post = "[]" and pre = "[(''a.jpg'', 1)]"
        and i = 2 and predict = one_hit and t = same_name_table and out = "[?r, ?r]"] ev
    by simp
qed

subsection \<open>The number of output rows\<close>

text \<open>
  C1, as amended. For an input table with as many image paths as rows, every path
  containing a slash, in which two rows have the same \<^verbatim>\<open>d3mIndex\<close> exactly when their
  images have the same base name, and then the same path: if the detector gives every
  image exactly one detection before the first score below \<open>0.5\<close>, then
  \<^verbatim>\<open>produce\<close> returns a table whose \<^verbatim>\<open>d3mIndex\<close> values are those of the input
  and whose number of rows is the number of distinct row identifiers.
\<close>

theorem produce_one_row_per_id:
  assumes len: "length (d3mIndex t) = length (image_paths t)"
    and same: "\<forall>j < length (d3mIndex t). \<forall>k < length (d3mIndex t).
        (d3mIndex t ! j = d3mIndex t ! k) =
          (basename (image_paths t ! j) = basename (image_paths t ! k)) \<and>
        (d3mIndex t ! j = d3mIndex t ! k \<longrightarrow> image_paths t ! j = image_paths t ! k)"
    and slash: "\<forall>p \<in> set (image_paths t). CHR ''/'' \<in> set p"
    and one: "\<forall>p \<in> set (image_paths t). length (accepted predict p) = 1"
  shows "\<exists>out. produce predict t = Inr out \<and> set (map row_d3mIndex out) = set (d3mIndex t) \<and>
           length out = card (set (d3mIndex t))"
proof -
  let ?paths = "image_paths t"
  let ?ids = "d3mIndex t"
  let ?n = "length ?ids"
  let ?bn = "map basename ?paths"
  let ?P = "image_list ?paths"
  let ?dets = "detect_all predict ?P"
  let ?mapping = "to_dict_list (zip ?bn ?ids)"
  let ?d3mIdx = "map (map_of ?mapping) (map basename (image_name_list ?dets))"
  define f where "f p = the (map_of (rev (zip ?bn ?ids)) (basename p))" for p
  have setP: "set ?P = set ?paths" by (rule set_image_list_eq)
  have dP: "distinct ?P" by (rule distinct_image_list)
  have look: "map_of (rev (zip ?bn ?ids)) (?bn ! j) = Some (?ids ! j)" if j: "j < ?n" for j
  proof -
    have "zip ?bn ?ids ! j \<in> set (zip ?bn ?ids)"
      using j len by (intro nth_mem) simp
    then have "(?bn ! j, ?ids ! j) \<in> set (zip ?bn ?ids)"
      using j len by simp
    then have "?bn ! j \<in> fst ` set (rev (zip ?bn ?ids))" by force
    then obtain i' where i': "map_of (rev (zip ?bn ?ids)) (?bn ! j) = Some i'"
      by (metis map_of_eq_None_iff not_Some_eq)
    then have "(?bn ! j, i') \<in> set (zip ?bn ?ids)"
      by (auto dest: map_of_SomeD)
    then obtain k where k: "k < ?n" "?bn ! k = ?bn ! j" "?ids ! k = i'"
      using len by (auto simp: set_zip)
    then have "basename (?paths ! k) = basename (?paths ! j)"
      using j len by simp
    then have "?ids ! k = ?ids ! j" using same j k(1) by blast
    with i' k show ?thesis by simp
  qed
  have fj: "f (?paths ! j) = ?ids ! j" if "j < ?n" for j
    using look [OF that] that len by (simp add: f_def)
  have single: "accepted predict p = [hd (accepted predict p)]" if "p \<in> set ?P" for p
  proof -
    from one that setP have "length (accepted predict p) = 1" by blast
    then show ?thesis by (cases "accepted predict p") auto
  qed
  have eqn: "map (\<lambda>i. replicate (length (accepted predict i)) (concat (replicate 4 i))) ?P =
      map (\<lambda>i. [concat (replicate 4 i)]) ?P"
    using one setP by (intro map_cong) auto
  have nm: "image_name_list ?dets = map (\<lambda>i. concat (replicate 4 i)) ?P"
    unfolding detect_all_names eqn by (rule concat_map_singleton)
  have "map basename (map (\<lambda>i. concat (replicate 4 i)) ?P) = map basename ?P"
    unfolding map_map using slash setP by (intro map_cong) (auto simp: basename_repeat)
  then have bn: "map basename (image_name_list ?dets) = map basename ?P"
    by (simp only: nm)
  have eqb: "map (\<lambda>i. map (\<lambda>(b, s). astype_int_box b) (accepted predict i)) ?P =
      map (\<lambda>i. [astype_int_box (fst (hd (accepted predict i)))]) ?P"
  proof (intro map_cong refl)
    fix p assume "p \<in> set ?P"
    from single [OF this] obtain b s where "accepted predict p = [(b, s)]"
      by (cases "hd (accepted predict p)") auto
    then show "map (\<lambda>(b, s). astype_int_box b) (accepted predict p) =
        [astype_int_box (fst (hd (accepted predict p)))]" by simp
  qed
  have lb: "length (box_list ?dets) = length ?P"
    unfolding detect_all_boxes eqb by simp
  have eqs: "map (\<lambda>i. map snd (accepted predict i)) ?P =
      map (\<lambda>i. [snd (hd (accepted predict i))]) ?P"
  proof (intro map_cong refl)
    fix p assume "p \<in> set ?P"
    from single [OF this] show "map snd (accepted predict p) = [snd (hd (accepted predict p))]"
      by (metis list.simps(8,9))
  qed
  have ls: "length (score_list ?dets) = length ?P"
    unfolding detect_all_scores eqs by simp
  have d3: "?d3mIdx = map (\<lambda>p. Some [f p]) ?P"
    unfolding bn map_map
  proof (intro map_cong refl)
    fix p assume "p \<in> set ?P"
    then obtain j where j: "j < ?n" "p = ?paths ! j"
      using setP len by (metis in_set_conv_nth)
    then have "map_of (rev (zip ?bn ?ids)) (basename p) = Some (f p)"
      using look [of j] fj [of j] len by simp
    then show "(map_of ?mapping \<circ> basename) p = Some [f p]"
      by (simp add: map_of_to_dict_list)
  qed
  have flat: "concat (map the (map (\<lambda>p. Some [f p]) ?P)) = map f ?P"
    by (simp add: comp_def)
  have fP: "f ` set ?P = set ?ids"
  proof -
    have "f ` set ?paths = set ?ids"
    proof (intro set_eqI iffI)
      fix i assume "i \<in> f ` set ?paths"
      then obtain j where "j < ?n" "i = f (?paths ! j)"
        using len by (auto simp: in_set_conv_nth)
      then show "i \<in> set ?ids" using fj by simp
    next
      fix i assume "i \<in> set ?ids"
      then obtain j where j: "j < ?n" "i = ?ids ! j"
        by (auto simp: in_set_conv_nth)
      then have "i = f (?paths ! j)" using fj by simp
      moreover have "?paths ! j \<in> set ?paths" using j len by simp
      ultimately show "i \<in> f ` set ?paths" by blast
    qed
    then show ?thesis by (simp only: setP)
  qed
  have inj: "inj_on f (set ?P)"
  proof (rule inj_onI)
    fix p q assume "p \<in> set ?P" "q \<in> set ?P" and eq: "f p = f q"
    then obtain j k where "j < ?n" "p = ?paths ! j" "k < ?n" "q = ?paths ! k"
      using setP len by (metis in_set_conv_nth)
    with eq fj same show "p = q" by metis
  qed
  have empty: "filter (\<lambda>(k, v). Some v \<notin> set (map (\<lambda>p. Some [f p]) ?P)) ?mapping = []"
  proof -
    have "Some v \<in> set (map (\<lambda>p. Some [f p]) ?P)" if "(k, v) \<in> set ?mapping" for k v
    proof -
      from to_dict_list_entries [OF that] obtain i
        where i: "v = [i]" "(k, i) \<in> set (zip ?bn ?ids)" by blast
      then have "i \<in> set ?ids" by (auto dest: set_zip_rightD)
      then have "i \<in> f ` set ?P" by (simp only: fP)
      then show ?thesis using i(1) by auto
    qed
    then show ?thesis unfolding filter_empty_conv by blast
  qed
  let ?out = "map (\<lambda>(i, b, s). \<lparr> row_d3mIndex = i, row_bounding_box = b, row_confidence = s \<rparr>)
      (zip (map f ?P) (zip (map box_string (box_list ?dets)) (score_list ?dets)))"
  have "produce predict t = Inr ?out"
    unfolding produce_def Let_def d3 flat empty using len lb ls by auto
  moreover have "map row_d3mIndex ?out = map f ?P"
    by (rule rows_proj(1)) (simp_all add: lb ls)
  then have "set (map row_d3mIndex ?out) = set ?ids"
    using fP by simp
  moreover have "length ?out = card (set ?ids)"
  proof -
    have "card (set ?ids) = card (set ?P)"
      using card_image [OF inj] fP by simp
    then show ?thesis using dP by (simp add: lb ls distinct_card)
  qed
  ultimately show ?thesis by blast
qed

text \<open>
  The theorem at a table whose first two rows are the same image with the same identifier.
\<close>

theorem produce_one_row_per_id_witness:
  "\<exists>out. produce one_hit repeated_row_table = Inr out \<and>
      set (map row_d3mIndex out) = set (d3mIndex repeated_row_table) \<and>
      length out = card (set (d3mIndex repeated_row_table))"
proof (rule produce_one_row_per_id)
  show "length (d3mIndex repeated_row_table) = length (image_paths repeated_row_table)" by code_simp
  show "\<forall>p \<in> set (image_paths repeated_row_table). CHR ''/'' \<in> set p" by code_simp
  show "\<forall>p \<in> set (image_paths repeated_row_table). length (accepted one_hit p) = 1" by code_simp
  show "\<forall>j < length (d3mIndex repeated_row_table). \<forall>k < length (d3mIndex repeated_row_table).
        (d3mIndex repeated_row_table ! j = d3mIndex repeated_row_table ! k) =
          (basename (image_paths repeated_row_table ! j) = basename (image_paths repeated_row_table ! k)) \<and>
        (d3mIndex repeated_row_table ! j = d3mIndex repeated_row_table ! k \<longrightarrow>
          image_paths repeated_row_table ! j = image_paths repeated_row_table ! k)"
    by code_simp
qed

text \<open>
  The claim as stated fails when an image has two detections at or above \<open>0.5\<close>: one
  input row, two output rows.
\<close>

theorem produce_two_hits_counterexample:
  "produce two_hits one_row_table =
     Inr [\<lparr> row_d3mIndex = 1, row_bounding_box = ''10,20,10,40,30,40,30,20'', row_confidence = 0.9 \<rparr>,
          \<lparr> row_d3mIndex = 1, row_bounding_box = ''1,2,1,4,3,4,3,2'', row_confidence = 0.8 \<rparr>] \<and>
   card (set (d3mIndex one_row_table)) = 1"
  by code_simp

subsection \<open>Images without an accepted detection\<close>

text \<open>
  C3. For one input row whose image has a single detection with score \<open>0.3\<close>, below
  the threshold, \<^verbatim>\<open>produce\<close> returns no table: it raises NameError at line 654, so
  there is no placeholder row with \<^verbatim>\<open>0,0,0,0,0,0,0,0\<close> and \<open>0.0\<close> for that row.
\<close>

theorem produce_low_score_raises: "produce low_score one_row_table = Inl NameError"
  by code_simp

text \<open>
  C7. For the rows 1 (\<^verbatim>\<open>a.jpg\<close>, one detection with score \<open>0.9\<close>) and 2
  (\<^verbatim>\<open>b.jpg\<close>, no detection), \<^verbatim>\<open>produce\<close> raises NameError at line 654 instead of
  returning row 1 followed by the placeholder row for 2.
\<close>

theorem produce_scenario_raises: "produce scenario_detector scenario_table = Inl NameError"
  by code_simp

subsection \<open>The annotation builder\<close>

text \<open>
  C2, as amended. When no bounding-box field of the table has more than 8 tokens, for
  every row whose field splits into 8 tokens \<^verbatim>\<open>set_training_data\<close> succeeds and the
  row's annotation takes position 0 as x1, position 1 as y1, position 4 as x2 and
  position 3 as y2; positions 2, 5, 6 and 7 are dropped.
\<close>

theorem set_training_data_positions:
  assumes "\<forall>s \<in> set (bounding_box t). length (split_comma s) \<le> 8"
    and "j < length (bounding_box t)"
    and "split_comma (bounding_box t ! j) = ts"
    and "length ts = 8"
  shows "\<exists>anns. set_training_data t = Inr anns \<and> j < length anns \<and>
           ann_x1 (anns ! j) = Some (ts ! 0) \<and> ann_y1 (anns ! j) = Some (ts ! 1) \<and>
           ann_x2 (anns ! j) = Some (ts ! 4) \<and> ann_y2 (anns ! j) = Some (ts ! 3)"
proof -
  have "expand_width (map split_comma (bounding_box t)) \<le> 8"
    using assms(1) by (intro expand_width_le) auto
  moreover have "bounding_box t ! j \<in> set (bounding_box t)"
    using assms(2) by simp
  then have "ts \<in> set (map split_comma (bounding_box t))"
    using assms(3) by auto
  then have "8 \<le> expand_width (map split_comma (bounding_box t))"
    using expand_width_ge assms(4) by metis
  ultimately have "expand_width (map split_comma (bounding_box t)) = 8" by simp
  from set_training_data_width8 [OF this assms(2)] show ?thesis
    by (simp add: assms(3,4) nth_opt_def)
qed

text \<open>
  For the field \<^verbatim>\<open>10,20,30,40,50,60,70,80\<close> the annotation's y2 is \<^verbatim>\<open>40\<close>, the
  token at position 3, not \<^verbatim>\<open>60\<close>, the one at position 5.
\<close>

theorem set_training_data_counterexample:
  "set_training_data one_row_table =
     Inr [\<lparr> img_file = Some ''/d/a.jpg'', ann_x1 = Some ''10'', ann_y1 = Some ''20'',
            ann_x2 = Some ''50'', ann_y2 = Some ''40'', class_name = Some ''class'' \<rparr>] \<and>
   split_comma (bounding_box one_row_table ! 0) ! 5 = ''60''"
  by code_simp

theorem set_training_data_positions_witness:
  "\<exists>anns. set_training_data scenario_table = Inr anns \<and> 1 < length anns \<and>
      ann_x1 (anns ! 1) = Some ''3'' \<and> ann_y1 (anns ! 1) = Some ''4'' \<and>
      ann_x2 (anns ! 1) = Some ''9'' \<and> ann_y2 (anns ! 1) = Some ''8''"
proof -
  have 1: "\<forall>s \<in> set (bounding_box scenario_table). length (split_comma s) \<le> 8" by code_simp
  have 2: "1 < length (bounding_box scenario_table)" by code_simp
  have 3: "split_comma (bounding_box scenario_table ! 1) = [''3'', ''4'', ''3'', ''8'', ''9'', ''8'', ''9'', ''4'']"
    by code_simp
  show ?thesis
    using set_training_data_positions [OF 1 2 3] by simp
qed

text \<open>
  C9, as amended. \<^verbatim>\<open>set_training_data\<close> has no error of its own for a malformed
  bounding-box field and never looks at whether a token is numeric. It fails with
  IndexError when the table is not empty and every field has fewer than 8 tokens, and
  with ValueError when some field has more than 8 tokens. When the longest field has
  exactly 8 tokens it succeeds for the whole table, and a row takes the tokens at
  positions 0, 1, 4 and 3 as they are, a position that the row's field lacks being a
  missing value.
\<close>

theorem set_training_data_failures:
  "(bounding_box t \<noteq> [] \<and> (\<forall>s \<in> set (bounding_box t). length (split_comma s) < 8)
      \<longrightarrow> set_training_data t = Inl IndexError) \<and>
   ((\<exists>s \<in> set (bounding_box t). 8 < length (split_comma s))
      \<longrightarrow> set_training_data t = Inl ValueError) \<and>
   ((\<forall>s \<in> set (bounding_box t). length (split_comma s) \<le> 8) \<and>
    (\<exists>s \<in> set (bounding_box t). length (split_comma s) = 8)
      \<longrightarrow> (\<exists>anns. set_training_data t = Inr anns \<and>
            (\<forall>j < length (bounding_box t). j < length anns \<and>
               ann_x1 (anns ! j) = nth_opt (split_comma (bounding_box t ! j)) 0 \<and>
               ann_y1 (anns ! j) = nth_opt (split_comma (bounding_box t ! j)) 1 \<and>
               ann_x2 (anns ! j) = nth_opt (split_comma (bounding_box t ! j)) 4 \<and>
               ann_y2 (anns ! j) = nth_opt (split_comma (bounding_box t ! j)) 3)))"
proof (intro conjI impI)
  let ?toks = "map split_comma (bounding_box t)"
  {
    assume "bounding_box t \<noteq> [] \<and> (\<forall>s \<in> set (bounding_box t). length (split_comma s) < 8)"
    then have "expand_width ?toks \<le> 7"
      by (intro expand_width_le) auto
    then show "set_training_data t = Inl IndexError"
      by (simp add: set_training_data_def bounding_coords_def Let_def)
  next
    assume "\<exists>s \<in> set (bounding_box t). 8 < length (split_comma s)"
    then obtain s where "s \<in> set (bounding_box t)" "8 < length (split_comma s)" by blast
    then have "8 < expand_width ?toks"
      using expand_width_ge [of "split_comma s" ?toks] by simp
    then show "set_training_data t = Inl ValueError"
      by (simp add: set_training_data_def bounding_coords_def Let_def)
  next
    assume a: "(\<forall>s \<in> set (bounding_box t). length (split_comma s) \<le> 8) \<and>
      (\<exists>s \<in> set (bounding_box t). length (split_comma s) = 8)"
    then have "expand_width ?toks \<le> 8"
      by (intro expand_width_le) auto
    moreover from a obtain s where "s \<in> set (bounding_box t)" "length (split_comma s) = 8" by blast
    then have "8 \<le> expand_width ?toks"
      using expand_width_ge [of "split_comma s" ?toks] by simp
    ultimately have w: "expand_width ?toks = 8" by simp
    then obtain anns where anns: "set_training_data t = Inr anns"
      by (simp add: set_training_data_def bounding_coords_def Let_def)
    have "j < length anns \<and>
               ann_x1 (anns ! j) = nth_opt (split_comma (bounding_box t ! j)) 0 \<and>
               ann_y1 (anns ! j) = nth_opt (split_comma (bounding_box t ! j)) 1 \<and>
               ann_x2 (anns ! j) = nth_opt (split_comma (bounding_box t ! j)) 4 \<and>
               ann_y2 (anns ! j) = nth_opt (split_comma (bounding_box t ! j)) 3"
      if "j < length (bounding_box t)" for j
      using set_training_data_width8 [OF w that] anns by simp
    with anns show "\<exists>anns. set_training_data t = Inr anns \<and>
            (\<forall>j < length (bounding_box t). j < length anns \<and>
               ann_x1 (anns ! j) = nth_opt (split_comma (bounding_box t ! j)) 0 \<and>
               ann_y1 (anns ! j) = nth_opt (split_comma (bounding_box t ! j)) 1 \<and>
               ann_x2 (anns ! j) = nth_opt (split_comma (bounding_box t ! j)) 4 \<and>
               ann_y2 (anns ! j) = nth_opt (split_comma (bounding_box t ! j)) 3)"
      by blast
  }
qed

text \<open>
  A table whose second field \<^verbatim>\<open>x,y,3\<close> has three tokens, two of them not numeric, is
  accepted: the call succeeds and the second annotation has no x2 and no y2.
\<close>

theorem short_row_counterexample:
  "set_training_data short_row_table =
     Inr [\<lparr> img_file = Some ''/d/a.jpg'', ann_x1 = Some ''1'', ann_y1 = Some ''2'',
            ann_x2 = Some ''5'', ann_y2 = Some ''4'', class_name = Some ''class'' \<rparr>,
          \<lparr> img_file = Some ''/d/b.jpg'', ann_x1 = Some ''x'', ann_y1 = Some ''y'',
            ann_x2 = None, ann_y2 = None, class_name = Some ''class'' \<rparr>]"
  by code_simp

theorem set_training_data_failures_witness:
  "set_training_data all_short_table = Inl IndexError \<and>
   set_training_data long_row_table = Inl ValueError \<and>
   (\<exists>anns. set_training_data short_row_table = Inr anns \<and> 1 < length anns \<and>
      ann_x1 (anns ! 1) = Some ''x'' \<and> ann_y1 (anns ! 1) = Some ''y'' \<and>
      ann_x2 (anns ! 1) = None \<and> ann_y2 (anns ! 1) = None)"
proof -
  have a: "bounding_box all_short_table \<noteq> [] \<and>
      (\<forall>s \<in> set (bounding_box all_short_table). length (split_comma s) < 8)"
    by code_simp
  have b: "\<exists>s \<in> set (bounding_box long_row_table). 8 < length (split_comma s)"
    by code_simp
  have c: "(\<forall>s \<in> set (bounding_box short_row_table). length (split_comma s) \<le> 8) \<and>
      (\<exists>s \<in> set (bounding_box short_row_table). length (split_comma s) = 8)"
    by code_simp
  have l: "1 < length (bounding_box short_row_table)" by code_simp
  have s: "split_comma (bounding_box short_row_table ! 1) = [''x'', ''y'', ''3'']" by code_simp
  from set_training_data_failures [of all_short_table] a
  have "set_training_data all_short_table = Inl IndexError" by blast
  moreover from set_training_data_failures [of long_row_table] b
  have "set_training_data long_row_table = Inl ValueError" by blast
  moreover from set_training_data_failures [of short_row_table] c
  obtain anns where "set_training_data short_row_table = Inr anns"
    and "\<forall>j < length (bounding_box short_row_table). j < length anns \<and>
               ann_x1 (anns ! j) = nth_opt (split_comma (bounding_box short_row_table ! j)) 0 \<and>
               ann_y1 (anns ! j) = nth_opt (split_comma (bounding_box short_row_table ! j)) 1 \<and>
               ann_x2 (anns ! j) = nth_opt (split_comma (bounding_box short_row_table ! j)) 4 \<and>
               ann_y2 (anns ! j) = nth_opt (split_comma (bounding_box short_row_table ! j)) 3"
    by blast
  with l s have "set_training_data short_row_table = Inr anns \<and> 1 < length anns \<and>
      ann_x1 (anns ! 1) = Some ''x'' \<and> ann_y1 (anns ! 1) = Some ''y'' \<and>
      ann_x2 (anns ! 1) = None \<and> ann_y2 (anns ! 1) = None"
    by (simp add: nth_opt_def)
  ultimately show ?thesis by blast
qed

end
